theory Spec2Isabelle
  imports Main
begin

section \<open>The sitemap extractor (sitemap_extractor.py)\<close>

text \<open>
  The program resolves a sitemap source (a local path or a remote locator) into the flat
  list of the URLs of its leaf sitemaps, following sitemap indexes recursively
  (\<^verbatim>\<open>extract_all_urls\<close>). Its pure part is the classification of a document
  (\<^verbatim>\<open>is_sitemap_index\<close>) and the extraction of the \<^verbatim>\<open>loc\<close> texts; everything else
  talks to the outside: the network, the file system, a browser, the terminal.

  The outside is a parameter of the model (the record \<open>world\<close> below): what
  \<^verbatim>\<open>requests.get\<close>, \<^verbatim>\<open>open\<close>, the Playwright session and \<^verbatim>\<open>ET.fromstring\<close> answer.
  Every function of the source that can raise returns a sum, \<open>Inl\<close> the exception;
  every function that prints returns the list of what it printed, in order.
\<close>

subsection \<open>Python strings\<close>

text \<open>
  A Python \<^verbatim>\<open>str\<close> is modelled as a \<open>string\<close>, each \<open>char\<close> one code point below 256.
\<close>

definition startswith :: "string \<Rightarrow> string \<Rightarrow> bool" where
  "startswith s p = (take (length p) s = p)"

definition endswith :: "string \<Rightarrow> string \<Rightarrow> bool" where
  "endswith s p = (length p \<le> length s \<and> drop (length s - length p) s = p)"

text \<open>
  \<^verbatim>\<open>str.isspace\<close> on one character: the ASCII white space (tab, line feed, vertical tab,
  form feed, carriage return, the separators 0x1C to 0x1F, space) and, in Latin-1, next
  line (0x85) and no-break space (0xA0).
\<close>

definition isspace :: "char \<Rightarrow> bool" where
  "isspace c = (of_char c \<in> set [9, 10, 11, 12, 13, 28, 29, 30, 31, 32, 133, 160 :: nat])"

text \<open>\<^verbatim>\<open>s.strip()\<close> and \<^verbatim>\<open>s.strip(chars)\<close>: both ends lose the characters of the class.\<close>

definition strip_where :: "(char \<Rightarrow> bool) \<Rightarrow> string \<Rightarrow> string" where
  "strip_where P s = rev (dropWhile P (rev (dropWhile P s)))"

definition strip :: "string \<Rightarrow> string" where
  "strip s = strip_where isspace s"

definition strip_chars :: "string \<Rightarrow> string \<Rightarrow> string" where
  "strip_chars s chars = strip_where (\<lambda>c. c \<in> set chars) s"

text \<open>\<^verbatim>\<open>s.split(sep)[0]\<close> for a separator of one character: what comes before its first occurrence.\<close>

definition split_head :: "string \<Rightarrow> char \<Rightarrow> string" where
  "split_head s sep = takeWhile (\<lambda>c. c \<noteq> sep) s"

subsection \<open>Exceptions and terminal output\<close>

text \<open>
  The exceptions the program meets. \<open>Fetch_failed\<close> and \<open>Playwright_failed\<close> are the two
  \<^verbatim>\<open>requests.RequestException\<close> that \<^verbatim>\<open>read_sitemap\<close> raises itself, with the values its
  message is formatted from. \<open>Exit\<close> is \<^verbatim>\<open>typer.Exit\<close>, which is \<^verbatim>\<open>click.exceptions.Exit\<close>,
  a subclass of \<^verbatim>\<open>RuntimeError\<close> and so of \<^verbatim>\<open>Exception\<close>. \<open>Error\<close> stands for every other
  subclass of \<^verbatim>\<open>Exception\<close> (\<^verbatim>\<open>OSError\<close>, \<^verbatim>\<open>ValueError\<close>, a transport error of requests, ...),
  with its text. \<^verbatim>\<open>KeyboardInterrupt\<close> and \<^verbatim>\<open>SystemExit\<close> are outside the model.
\<close>

datatype exn =
    ParseError string
  | Exit nat
  | Error string
  | RequestError string
  | Playwright_failed string exn
  | Fetch_failed string "exn option"

text \<open>\<^verbatim>\<open>isinstance(e, requests.RequestException)\<close>; \<open>RequestError\<close> is one raised by requests itself.\<close>

fun is_RequestException :: "exn \<Rightarrow> bool" where
  "is_RequestException (RequestError m) = True"
| "is_RequestException (Playwright_failed source e) = True"
| "is_RequestException (Fetch_failed source last_exc) = True"
| "is_RequestException e = False"

text \<open>The lines the program prints, one constructor for each \<^verbatim>\<open>typer.echo\<close> of the source.\<close>

datatype message =
    Info_public_ip string
  | Warning_public_ip exn
  | Warning_http_status nat string nat
  | Debug_headers
  | Warning_error_fetching string nat exn
  | Info_falling_back_to_playwright string
  | Chromium_window_will_open
  | Warning_navigation_failed exn
  | Info_browser_remains_open
  | Error_could_not_capture exn
  | Help_save_manually
  | Error_playwright_failed string exn
  | Error_playwright_not_installed
  | Error_parsing_XML exn
  | Warning_could_not_fetch string exn
  | Max_depth_reached string
  | Sitemap_index_detected string
  | Child_arrow string
  | Warning_could_not_parse string exn
  | Error_no_source
  | No_URLs_found
  | Total_URLs_extracted nat
  | Error_message exn

text \<open>
  What a run leaves behind, in order: a line on standard output (\<open>Echo\<close>), a line on
  standard error (\<open>Echo_err\<close>, \<^verbatim>\<open>err=True\<close>), and two marks that print nothing:
  \<open>Fetch s\<close> for one call of \<^verbatim>\<open>read_sitemap(s)\<close>, and \<open>Parse s\<close> for one call of
  \<^verbatim>\<open>ET.fromstring\<close> on the document fetched for \<open>s\<close>.
\<close>

datatype event =
    Echo message
  | Echo_err message
  | Fetch string
  | Parse string

subsection \<open>XML elements\<close>

text \<open>
  An \<^verbatim>\<open>xml.etree.ElementTree.Element\<close>: its tag (\<^verbatim>\<open>{uri}local\<close> when it has a namespace),
  its text (\<^verbatim>\<open>None\<close> when absent; the text before the first child) and its children.
\<close>

datatype element = Element (etag: string) (etext: "string option") (echildren: "element list")

text \<open>\<^verbatim>\<open>Element.iter()\<close>: the element and all its descendants, in document order.\<close>

fun iter :: "element \<Rightarrow> element list" where
  "iter (Element t x cs) = Element t x cs # concat (map iter cs)"

text \<open>The descendants of an element, itself excluded, in document order.\<close>

definition descendants :: "element \<Rightarrow> element list" where
  "descendants root = concat (map iter (echildren root))"

text \<open>
  \<^verbatim>\<open>root.findall('.//name')\<close> as \<^verbatim>\<open>xml.etree.ElementPath\<close> computes it (Python 3.8 and
  later), in document order: for a name \<^verbatim>\<open>{*}local\<close> the descendants of the root whose tag
  is \<^verbatim>\<open>local\<close> in any namespace or in none (the tag is \<^verbatim>\<open>local\<close> or ends with
  \<^verbatim>\<open>}local\<close>); for a name \<^verbatim>\<open>{}local\<close> those whose tag is \<^verbatim>\<open>local\<close>; for any other name
  those whose tag is that name.
\<close>

definition findall_descendants :: "element \<Rightarrow> string \<Rightarrow> element list" where
  "findall_descendants root name =
     (if take 3 name = ''{*}'' then
        filter (\<lambda>e. etag e = drop 3 name \<or> endswith (etag e) (drop 2 name)) (descendants root)
      else if take 2 name = ''{}'' then
        filter (\<lambda>e. etag e = drop 2 name) (descendants root)
      else filter (\<lambda>e. etag e = name) (descendants root))"

subsection \<open>The outside world\<close>

text \<open>One attempt of \<^verbatim>\<open>requests.get\<close>: a response (status code and text) or an exception.\<close>

datatype attempt = Response nat string | Raised exn

text \<open>
  The interactive Playwright session, by how it ends. \<open>nav\<close> is the exception of
  \<^verbatim>\<open>page.goto\<close>, if it raised. \<open>Captured\<close>: \<^verbatim>\<open>page.content()\<close> and \<^verbatim>\<open>browser.close()\<close>
  succeeded. \<open>Capture_failed\<close>: one of the two raised (the inner handler).
  \<open>Session_failed\<close>: anything else in the \<^verbatim>\<open>with\<close> block raised (the outer handler).
  The wait for the user's Enter key is assumed to end.
\<close>

datatype session =
    Captured "exn option" string
  | Capture_failed "exn option" exn
  | Session_failed "exn option" exn

text \<open>
  What the program asks of the outside: the result of \<^verbatim>\<open>ET.fromstring(text)\<close>, of reading
  the file at a path, of the attempt of a given number (from 0) to \<^verbatim>\<open>requests.get\<close> a
  URL, whether Playwright could be imported, how its session for a URL ends, the answer
  of the IP echo service, and whether \<^verbatim>\<open>output_urls\<close> raises on a list of URLs. The answers
  are fixed for a run: a source is asked for once (see C2 below), so no run could tell a
  world that changes its answers.
\<close>

record world =
  fromstring :: "string \<Rightarrow> exn + element"
  open_read :: "string \<Rightarrow> exn + string"
  requests_get :: "string \<Rightarrow> nat \<Rightarrow> attempt"
  PLAYWRIGHT_AVAILABLE :: bool
  playwright :: "string \<Rightarrow> session"
  public_ip :: "exn + string"
  output_urls :: "string list \<Rightarrow> exn option"

subsection \<open>Classifier and extractors\<close>

text \<open>
  \<^verbatim>\<open>is_sitemap_index\<close>: the handler catches \<^verbatim>\<open>ET.ParseError\<close> only and answers \<^verbatim>\<open>False\<close>.
\<close>

definition is_sitemap_index :: "world \<Rightarrow> string \<Rightarrow> exn + bool" where
  "is_sitemap_index w xml_content =
     (case fromstring w xml_content of
        Inl (ParseError m) \<Rightarrow> Inr False
      | Inl e \<Rightarrow> Inl e
      | Inr root \<Rightarrow> Inr (endswith (etag root) ''sitemapindex''))"

text \<open>
  The path of the \<^verbatim>\<open>loc\<close> elements: \<^verbatim>\<open>.//ns:loc\<close> under the prefix map \<^verbatim>\<open>{'ns': uri}\<close>,
  which \<^verbatim>\<open>findall\<close> resolves to the tag \<^verbatim>\<open>{uri}loc\<close>, when the root's tag starts with a
  brace; \<^verbatim>\<open>.//loc\<close> otherwise.
\<close>

definition ns_uri :: "element \<Rightarrow> string" where
  "ns_uri root = strip_chars (split_head (etag root) CHR ''}'') ''{''"

definition loc_tag :: "element \<Rightarrow> string" where
  "loc_tag root =
     (if startswith (etag root) ''{'' then ''{'' @ ns_uri root @ ''}loc'' else ''loc'')"

text \<open>\<^verbatim>\<open>[elem.text.strip() for elem in elems if elem.text]\<close>: \<^verbatim>\<open>None\<close> and \<^verbatim>\<open>''\<close> are falsy.\<close>

definition stripped_texts :: "element list \<Rightarrow> string list" where
  "stripped_texts elems =
     List.map_filter
       (\<lambda>elem. case etext elem of None \<Rightarrow> None | Some t \<Rightarrow> if t = [] then None else Some (strip t))
       elems"

definition extract_sitemaps_from_index :: "world \<Rightarrow> string \<Rightarrow> (exn + string list) \<times> event list" where
  "extract_sitemaps_from_index w xml_content =
     (case fromstring w xml_content of
        Inl (ParseError m) \<Rightarrow> (Inl (Exit 1), [Echo_err (Error_parsing_XML (ParseError m))])
      | Inl e \<Rightarrow> (Inl e, [])
      | Inr root \<Rightarrow>
          (let sitemaps = stripped_texts (findall_descendants root (loc_tag root))
           in (Inr sitemaps, [])))"

definition extract_urls_from_sitemap :: "world \<Rightarrow> string \<Rightarrow> (exn + string list) \<times> event list" where
  "extract_urls_from_sitemap w xml_content =
     (case fromstring w xml_content of
        Inl (ParseError m) \<Rightarrow> (Inl (Exit 1), [Echo_err (Error_parsing_XML (ParseError m))])
      | Inl e \<Rightarrow> (Inl e, [])
      | Inr root \<Rightarrow>
          (let urls = stripped_texts (findall_descendants root (loc_tag root))
           in (Inr urls, [])))"

subsection \<open>The fetcher\<close>

text \<open>
  The loop \<^verbatim>\<open>for attempt in range(3)\<close> of \<^verbatim>\<open>read_sitemap\<close>. It returns from the function
  on a status 200 (\<open>Returned\<close>); otherwise it warns and goes on, and \<^verbatim>\<open>last_exc\<close> is
  assigned in the exception handler only. The random identity and the sleep between
  attempts change nothing that the model observes.
\<close>

datatype attempts_result = Returned string | Exhausted "exn option"

fun attempts :: "world \<Rightarrow> string \<Rightarrow> nat list \<Rightarrow> exn option \<Rightarrow> attempts_result \<times> event list" where
  "attempts w source [] last_exc = (Exhausted last_exc, [])"
| "attempts w source (attempt # rest) last_exc =
     (case requests_get w source attempt of
        Response status_code body \<Rightarrow>
          if status_code = 200 then (Returned body, [])
          else
            (let (r, evs) = attempts w source rest last_exc
             in (r, Echo_err (Warning_http_status status_code source (attempt + 1))
                      # Echo_err Debug_headers # evs))
      | Raised e \<Rightarrow>
          (let (r, evs) = attempts w source rest (Some e)
           in (r, Echo_err (Warning_error_fetching source (attempt + 1) e) # evs)))"

text \<open>What the navigation step of the Playwright session prints.\<close>

definition nav_events :: "exn option \<Rightarrow> event list" where
  "nav_events nav =
     (case nav of
        None \<Rightarrow> []
      | Some e \<Rightarrow> [Echo_err (Warning_navigation_failed e), Echo_err Info_browser_remains_open])"

text \<open>
  The Playwright fallback. The \<^verbatim>\<open>RequestException\<close> raised by the inner handler is raised
  inside the outer \<^verbatim>\<open>try\<close>, whose handler catches it and raises a second one around it.
\<close>

definition playwright_fallback :: "world \<Rightarrow> string \<Rightarrow> (exn + string) \<times> event list" where
  "playwright_fallback w source =
     (let intro = [Echo_err (Info_falling_back_to_playwright source), Echo Chromium_window_will_open]
      in case playwright w source of
           Captured nav content \<Rightarrow> (Inr content, intro @ nav_events nav)
         | Capture_failed nav e \<Rightarrow>
             (let inner = Playwright_failed source e
              in (Inl (Playwright_failed source inner),
                  intro @ nav_events nav
                    @ [Echo_err (Error_could_not_capture e), Echo_err Help_save_manually,
                       Echo_err (Error_playwright_failed source inner)]))
         | Session_failed nav e \<Rightarrow>
             (Inl (Playwright_failed source e),
              intro @ nav_events nav @ [Echo_err (Error_playwright_failed source e)]))"

definition is_remote :: "string \<Rightarrow> bool" where
  "is_remote source = (startswith source ''http://'' \<or> startswith source ''https://'')"

definition read_sitemap :: "world \<Rightarrow> string \<Rightarrow> (exn + string) \<times> event list" where
  "read_sitemap w source =
     (if is_remote source then
        (case attempts w source [0..<3] None of
           (Returned body, evs) \<Rightarrow> (Inr body, evs)
         | (Exhausted last_exc, evs) \<Rightarrow>
             if PLAYWRIGHT_AVAILABLE w then
               (let (r, evs') = playwright_fallback w source in (r, evs @ evs'))
             else
               (Inl (Fetch_failed source last_exc), evs @ [Echo_err Error_playwright_not_installed]))
      else (open_read w source, []))"

subsection \<open>The recursive resolver\<close>

definition MAX_SITEMAP_DEPTH :: int where
  "MAX_SITEMAP_DEPTH = 20"

text \<open>
  The measures by which the resolver below terminates: a call at depth 20 or more makes
  no further call, below 20 each level of the index tree uses up one unit of depth, and
  the loop shortens its list.
\<close>

definition resolver_measure ::
    "world \<times> string \<times> int \<times> string set + world \<times> string list \<times> int \<times> string list \<times> string set \<Rightarrow> nat" where
  "resolver_measure a =
     (case a of
        Inl (w, source, depth, visited) \<Rightarrow>
          (if depth < MAX_SITEMAP_DEPTH then 2 * nat (MAX_SITEMAP_DEPTH - depth) + 2 else 0)
      | Inr (w, children, depth, all_urls, visited) \<Rightarrow> 2 * nat (MAX_SITEMAP_DEPTH - depth) + 1)"

definition loop_measure ::
    "world \<times> string \<times> int \<times> string set + world \<times> string list \<times> int \<times> string list \<times> string set \<Rightarrow> nat" where
  "loop_measure a =
     (case a of
        Inl (w, source, depth, visited) \<Rightarrow> 0
      | Inr (w, children, depth, all_urls, visited) \<Rightarrow> length children)"

text \<open>
  \<^verbatim>\<open>extract_all_urls\<close>, with the set \<^verbatim>\<open>visited\<close> passed in and returned (the source shares
  one mutable set over the whole call tree, and keeps what was added when a call raises),
  and \<open>for_children\<close>, its loop \<^verbatim>\<open>for child in child_sitemaps\<close> with the accumulator
  \<^verbatim>\<open>all_urls\<close>. The handler around \<^verbatim>\<open>read_sitemap\<close> catches \<^verbatim>\<open>requests.RequestException\<close>
  only; the handlers around the recursive call and around \<^verbatim>\<open>extract_urls_from_sitemap\<close>
  catch every \<^verbatim>\<open>Exception\<close>. \<^verbatim>\<open>is_sitemap_index\<close>, \<^verbatim>\<open>extract_sitemaps_from_index\<close> and
  \<^verbatim>\<open>extract_urls_from_sitemap\<close> each call \<^verbatim>\<open>ET.fromstring\<close> once on the text they are
  given, so each of their calls leaves one \<open>Parse\<close> mark.
\<close>

function extract_all_urls ::
    "world \<Rightarrow> string \<Rightarrow> int \<Rightarrow> string set \<Rightarrow> (exn + string list) \<times> string set \<times> event list"
  and for_children ::
    "world \<Rightarrow> string list \<Rightarrow> int \<Rightarrow> string list \<Rightarrow> string set \<Rightarrow> string list \<times> string set \<times> event list"
where
  "extract_all_urls w source depth visited =
     (if source \<in> visited then (Inr [], visited, [])
      else
        (case read_sitemap w source of
           (Inl e, evs) \<Rightarrow>
             if is_RequestException e then
               (Inr [], insert source visited,
                Fetch source # evs @ [Echo_err (Warning_could_not_fetch source e)])
             else (Inl e, insert source visited, Fetch source # evs)
         | (Inr xml_content, evs) \<Rightarrow>
             (case is_sitemap_index w xml_content of
                Inl e \<Rightarrow> (Inl e, insert source visited, Fetch source # evs @ [Parse source])
              | Inr True \<Rightarrow>
                  if depth \<ge> MAX_SITEMAP_DEPTH then
                    (Inr [], insert source visited,
                     Fetch source # evs @ [Parse source, Echo_err (Max_depth_reached source)])
                  else
                    (case extract_sitemaps_from_index w xml_content of
                       (Inl e, evs2) \<Rightarrow>
                         (Inl e, insert source visited,
                          Fetch source # evs
                            @ [Parse source, Echo (Sitemap_index_detected source), Parse source]
                            @ evs2)
                     | (Inr child_sitemaps, evs2) \<Rightarrow>
                         (case for_children w child_sitemaps depth [] (insert source visited) of
                            (all_urls, visited', evs3) \<Rightarrow>
                              (Inr all_urls, visited',
                               Fetch source # evs
                                 @ [Parse source, Echo (Sitemap_index_detected source), Parse source]
                                 @ evs2 @ evs3)))
              | Inr False \<Rightarrow>
                  (case extract_urls_from_sitemap w xml_content of
                     (Inl e, evs2) \<Rightarrow>
                       (Inr [], insert source visited,
                        Fetch source # evs @ [Parse source, Parse source] @ evs2
                          @ [Echo_err (Warning_could_not_parse source e)])
                   | (Inr urls, evs2) \<Rightarrow>
                       (Inr urls, insert source visited,
                        Fetch source # evs @ [Parse source, Parse source] @ evs2)))))"
| "for_children w [] depth all_urls visited = (all_urls, visited, [])"
| "for_children w (child # rest) depth all_urls visited =
     (case extract_all_urls w child (depth + 1) visited of
        (Inl e, visited', evs) \<Rightarrow>
          (case for_children w rest depth all_urls visited' of
             (r, v, evs') \<Rightarrow>
               (r, v, Echo (Child_arrow child) # evs
                        @ Echo_err (Warning_could_not_parse child e) # evs'))
      | (Inr urls, visited', evs) \<Rightarrow>
          (case for_children w rest depth (all_urls @ urls) visited' of
             (r, v, evs') \<Rightarrow> (r, v, Echo (Child_arrow child) # evs @ evs')))"
  by pat_completeness auto

termination
  by (relation "measures [resolver_measure, loop_measure]")
     (auto simp: resolver_measure_def loop_measure_def MAX_SITEMAP_DEPTH_def)

declare extract_all_urls.simps [simp del]

subsection \<open>The command\<close>

text \<open>\<^verbatim>\<open>log_public_ip\<close>: one line, on standard output or, when the request fails, on standard error.\<close>

definition log_public_ip :: "world \<Rightarrow> event list" where
  "log_public_ip w =
     (case public_ip w of
        Inr ip \<Rightarrow> [Echo (Info_public_ip ip)]
      | Inl e \<Rightarrow> [Echo_err (Warning_public_ip e)])"

text \<open>
  \<^verbatim>\<open>main\<close> without \<^verbatim>\<open>--interactive\<close>: the exit status of the process and what it printed.
  \<^verbatim>\<open>typer.Exit(1)\<close> raised inside the \<^verbatim>\<open>try\<close> is caught by its own \<^verbatim>\<open>except Exception\<close>,
  printed, and raised again. Writing the result (\<^verbatim>\<open>output_urls\<close>) is the world's.
\<close>

definition main :: "world \<Rightarrow> string option \<Rightarrow> nat \<times> event list" where
  "main w source =
     (case source of
        None \<Rightarrow> (1, log_public_ip w @ [Echo_err Error_no_source])
      | Some src \<Rightarrow>
          if src = [] then (1, log_public_ip w @ [Echo_err Error_no_source])
          else
            (case extract_all_urls w src 0 {} of
               (Inl e, visited, evs) \<Rightarrow> (1, log_public_ip w @ evs @ [Echo_err (Error_message e)])
             | (Inr urls, visited, evs) \<Rightarrow>
                 if urls = [] then
                   (1, log_public_ip w @ evs
                         @ [Echo_err No_URLs_found, Echo_err (Error_message (Exit 1))])
                 else
                   (case output_urls w urls of
                      Some e \<Rightarrow>
                        (1, log_public_ip w @ evs
                              @ [Echo (Total_URLs_extracted (length urls)), Echo_err (Error_message e)])
                    | None \<Rightarrow>
                        (0, log_public_ip w @ evs @ [Echo (Total_URLs_extracted (length urls))]))))"

section \<open>What the properties are stated with\<close>

subsection \<open>Reading a run\<close>

text \<open>The sources fetched, and the sources whose document was parsed, in order.\<close>

fun fetched :: "event list \<Rightarrow> string list" where
  "fetched [] = []"
| "fetched (Fetch s # evs) = s # fetched evs"
| "fetched (ev # evs) = fetched evs"

fun parsed :: "event list \<Rightarrow> string list" where
  "parsed [] = []"
| "parsed (Parse s # evs) = s # parsed evs"
| "parsed (ev # evs) = parsed evs"

text \<open>Events that only print: no fetch and no parse among them.\<close>

definition quiet :: "event list \<Rightarrow> bool" where
  "quiet evs = (fetched evs = [] \<and> parsed evs = [])"

text \<open>
  The invariant of the resolver, from the visited set before a call to the one after it:
  the set only grows, and whatever the call fetched or parsed it had not visited before,
  fetched once and parsed at most twice.
\<close>

definition at_most :: "nat \<Rightarrow> string list \<Rightarrow> bool" where
  "at_most n xs = list_all (\<lambda>x. count_list xs x \<le> n) xs"

definition fresh_marks :: "string set \<Rightarrow> string set \<Rightarrow> event list \<Rightarrow> bool" where
  "fresh_marks V V' evs =
     (V \<subseteq> V' \<and> set (fetched evs) \<subseteq> V' - V \<and> distinct (fetched evs)
        \<and> set (parsed evs) \<subseteq> V' - V \<and> at_most 2 (parsed evs))"

subsection \<open>Failed attempts\<close>

text \<open>An attempt fails unless it is a response with status 200.\<close>

fun failed :: "attempt \<Rightarrow> bool" where
  "failed (Response status_code body) = (status_code \<noteq> 200)"
| "failed (Raised e) = True"

text \<open>The exception of the last attempt that raised one, if any did.\<close>

fun last_raised :: "attempt list \<Rightarrow> exn option" where
  "last_raised [] = None"
| "last_raised (Response status_code body # rest) = last_raised rest"
| "last_raised (Raised e # rest) = (case last_raised rest of None \<Rightarrow> Some e | Some e' \<Rightarrow> Some e')"

subsection \<open>Qualified names and trimmed strings\<close>








subsection \<open>Index trees\<close>

text \<open>
  A tree of sitemap documents: a leaf is a source with the URLs of its document, an index
  a source with the trees of the children its document lists, in order.
\<close>

datatype sitemap_tree = Leaf string "string list" | Index string "sitemap_tree list"

fun root_source :: "sitemap_tree \<Rightarrow> string" where
  "root_source (Leaf source urls) = source"
| "root_source (Index source ts) = source"

text \<open>The URLs of the leaves, depth first in document order, and the sources of all nodes.\<close>

fun leaf_urls :: "sitemap_tree \<Rightarrow> string list" where
  "leaf_urls (Leaf source urls) = urls"
| "leaf_urls (Index source ts) = concat (map leaf_urls ts)"

fun sources :: "sitemap_tree \<Rightarrow> string list" where
  "sources (Leaf source urls) = [source]"
| "sources (Index source ts) = source # concat (map sources ts)"

text \<open>
  All nodes of the tree, depth first in document order, each with the URLs its document
  holds (none for an index); and the URLs of a list of such entries with every entry left
  out whose source is in \<open>V\<close> or comes earlier in the list.
\<close>

fun nodes :: "sitemap_tree \<Rightarrow> (string \<times> string list) list" where
  "nodes (Leaf source urls) = [(source, urls)]"
| "nodes (Index source ts) = (source, []) # concat (map nodes ts)"

fun first_seen :: "string set \<Rightarrow> (string \<times> string list) list \<Rightarrow> string list" where
  "first_seen V [] = []"
| "first_seen V ((source, urls) # rest) =
     (if source \<in> V then first_seen V rest else urls @ first_seen (insert source V) rest)"

text \<open>The subtrees of a tree, itself included.\<close>

fun subtrees :: "sitemap_tree \<Rightarrow> sitemap_tree list" where
  "subtrees (Leaf source urls) = [Leaf source urls]"
| "subtrees (Index source ts) = Index source ts # concat (map subtrees ts)"

text \<open>
  A visited set is closed for a tree when it holds, with the source of a subtree, all the
  sources of that subtree: what it has seen of the tree it has seen to the leaves.
\<close>

definition closed_for :: "string set \<Rightarrow> sitemap_tree \<Rightarrow> bool" where
  "closed_for V t = (\<forall>u \<in> set (subtrees t). root_source u \<in> V \<longrightarrow> set (sources u) \<subseteq> V)"

text \<open>Every index of the tree lies at a depth below the limit, the root being at depth \<open>d\<close>.\<close>

fun within_depth :: "int \<Rightarrow> sitemap_tree \<Rightarrow> bool" where
  "within_depth d (Leaf source urls) = True"
| "within_depth d (Index source ts) = (d < MAX_SITEMAP_DEPTH \<and> list_all (within_depth (d + 1)) ts)"

text \<open>
  The world serves the tree: each source is fetched without error, the document of a leaf
  is classified as a leaf and holds the leaf's URLs, the document of an index is classified
  as an index and lists the sources of the children.
\<close>

fun serves :: "world \<Rightarrow> sitemap_tree \<Rightarrow> bool" where
  "serves w (Leaf source urls) =
     (case fst (read_sitemap w source) of
        Inl e \<Rightarrow> False
      | Inr doc \<Rightarrow>
          is_sitemap_index w doc = Inr False \<and> fst (extract_urls_from_sitemap w doc) = Inr urls)"
| "serves w (Index source ts) =
     (case fst (read_sitemap w source) of
        Inl e \<Rightarrow> False
      | Inr doc \<Rightarrow>
          is_sitemap_index w doc = Inr True
          \<and> fst (extract_sitemaps_from_index w doc) = Inr (map root_source ts)
          \<and> list_all (serves w) ts)"

section \<open>Example documents\<close>

text \<open>
  A small world for the concrete runs below: a few local files, the trees their texts
  parse to, and a server that answers 503. The first leaf holds two URLs, the first with
  blanks around it.
\<close>

definition urls_xml :: string where
  "urls_xml =
     ''<urlset><url><loc> https://a.test/x </loc></url><url><loc>https://a.test/y</loc></url></urlset>''"

definition urls_tree :: element where
  "urls_tree =
     Element ''urlset'' None
       [Element ''url'' None [Element ''loc'' (Some '' https://a.test/x '') []],
        Element ''url'' None [Element ''loc'' (Some ''https://a.test/y'') []]]"

text \<open>A leaf in the sitemap namespace, with an element that is not a \<^verbatim>\<open>loc\<close>.\<close>

definition more_xml :: string where
  "more_xml =
     ''<urlset xmlns=\"urn:sitemap\"><url><loc>https://a.test/z</loc><lastmod>2024-01-01</lastmod></url></urlset>''"

definition more_tree :: element where
  "more_tree =
     Element ''{urn:sitemap}urlset'' None
       [Element ''{urn:sitemap}url'' None
          [Element ''{urn:sitemap}loc'' (Some ''https://a.test/z'') [],
           Element ''{urn:sitemap}lastmod'' (Some ''2024-01-01'') []]]"

text \<open>A leaf whose first \<^verbatim>\<open>loc\<close> holds one blank.\<close>

definition blank_xml :: string where
  "blank_xml =
     ''<urlset><url><loc> </loc></url><url><loc>https://a.test/y</loc></url></urlset>''"

definition blank_tree :: element where
  "blank_tree =
     Element ''urlset'' None
       [Element ''url'' None [Element ''loc'' (Some '' '') []],
        Element ''url'' None [Element ''loc'' (Some ''https://a.test/y'') []]]"

text \<open>A leaf in the sitemap namespace whose page carries an image with a \<^verbatim>\<open>loc\<close> of its own.\<close>

definition image_xml :: string where
  "image_xml =
     ''<urlset xmlns=\"urn:sitemap\" xmlns:image=\"urn:image\"><url><loc>https://a.test/p</loc><image:image><image:loc>https://a.test/p.png</image:loc></image:image></url></urlset>''"

definition image_tree :: element where
  "image_tree =
     Element ''{urn:sitemap}urlset'' None
       [Element ''{urn:sitemap}url'' None
          [Element ''{urn:sitemap}loc'' (Some ''https://a.test/p'') [],
           Element ''{urn:image}image'' None
             [Element ''{urn:image}loc'' (Some ''https://a.test/p.png'') []]]]"

text \<open>
  A leaf whose default namespace is named \<^verbatim>\<open>*\<close>, with a \<^verbatim>\<open>loc\<close> in that namespace, one in
  the image namespace and one in no namespace.
\<close>

definition star_xml :: string where
  "star_xml =
     ''<urlset xmlns=\"*\" xmlns:image=\"urn:image\"><loc>https://a.test/p</loc><image:loc>https://a.test/p.png</image:loc><loc xmlns=\"\">https://a.test/q</loc></urlset>''"

definition star_tree :: element where
  "star_tree =
     Element ''{*}urlset'' None
       [Element ''{*}loc'' (Some ''https://a.test/p'') [],
        Element ''{urn:image}loc'' (Some ''https://a.test/p.png'') [],
        Element ''loc'' (Some ''https://a.test/q'') []]"

text \<open>A text that is not well-formed: its elements are never closed.\<close>

definition broken_xml :: string where
  "broken_xml = ''<urlset><url>''"

text \<open>The text and the tree of a sitemap index that lists the given children.\<close>

definition index_xml :: "string list \<Rightarrow> string" where
  "index_xml cs =
     ''<sitemapindex>'' @ concat (map (\<lambda>c. ''<sitemap><loc>'' @ c @ ''</loc></sitemap>'') cs)
       @ ''</sitemapindex>''"

definition index_tree :: "string list \<Rightarrow> element" where
  "index_tree cs =
     Element ''sitemapindex'' None
       (map (\<lambda>c. Element ''sitemap'' None [Element ''loc'' (Some c) []]) cs)"

text \<open>
  A chain of files \<^verbatim>\<open>level\<close>, \<^verbatim>\<open>level+\<close>, \<^verbatim>\<open>level++\<close>, ...: each of the first 21 is an
  index of the next, and the last one is the leaf with two URLs.
\<close>

definition level :: "nat \<Rightarrow> string" where
  "level n = ''level'' @ replicate n CHR ''+''"

definition demo_files :: "(string \<times> string) list" where
  "demo_files =
     [(''urls.xml'', urls_xml), (''more.xml'', more_xml), (''blank.xml'', blank_xml),
      (''broken.xml'', broken_xml),
      (''index.xml'', index_xml [''urls.xml'', ''more.xml'']),
      (''mixed.xml'', index_xml [''broken.xml'', ''urls.xml'']),
      (''self.xml'', index_xml [''self.xml'', ''urls.xml'']),
      (''diamond.xml'', index_xml [''urls.xml'', ''more.xml'', ''urls.xml'']),
      (''image.xml'', image_xml)]
     @ map (\<lambda>n. (level n, index_xml [level (Suc n)])) [0..<21]
     @ [(level 21, urls_xml)]"

definition demo_documents :: "(string \<times> element) list" where
  "demo_documents =
     [(urls_xml, urls_tree), (more_xml, more_tree), (blank_xml, blank_tree),
      (index_xml [''urls.xml'', ''more.xml''], index_tree [''urls.xml'', ''more.xml'']),
      (index_xml [''broken.xml'', ''urls.xml''], index_tree [''broken.xml'', ''urls.xml'']),
      (index_xml [''self.xml'', ''urls.xml''], index_tree [''self.xml'', ''urls.xml'']),
      (index_xml [''urls.xml'', ''more.xml'', ''urls.xml''],
       index_tree [''urls.xml'', ''more.xml'', ''urls.xml'']),
      (image_xml, image_tree), (star_xml, star_tree)]
     @ map (\<lambda>n. (index_xml [level (Suc n)], index_tree [level (Suc n)])) [0..<21]"

text \<open>
  The world: the parser knows the documents above and rejects every other text, the file
  system holds the files above, every request is answered 503 but the second one for
  \<^verbatim>\<open>flaky.xml\<close>, which times out, and Playwright is not installed.
\<close>

definition demo :: world where
  "demo =
     \<lparr> fromstring =
         (\<lambda>text. case map_of demo_documents text of
                    None \<Rightarrow> Inl (ParseError ''not well-formed'')
                  | Some root \<Rightarrow> Inr root),
       open_read =
         (\<lambda>path. case map_of demo_files path of
                    None \<Rightarrow> Inl (Error ''No such file or directory'')
                  | Some text \<Rightarrow> Inr text),
       requests_get =
         (\<lambda>url attempt.
            if url = ''https://a.test/flaky.xml'' \<and> attempt = 1
            then Raised (RequestError ''timed out'')
            else Response 503 ''Service Unavailable''),
       PLAYWRIGHT_AVAILABLE = False,
       playwright = (\<lambda>url. Session_failed None (Error ''no browser'')),
       public_ip = Inr ''192.0.2.1'',
       output_urls = (\<lambda>urls. None) \<rparr>"

text \<open>The chain as an index tree: \<open>chain k n\<close> has \<open>k\<close> indexes above its leaf and starts at level \<open>n\<close>.\<close>

fun chain :: "nat \<Rightarrow> nat \<Rightarrow> sitemap_tree" where
  "chain 0 n = Leaf (level n) [''https://a.test/x'', ''https://a.test/y'']"
| "chain (Suc k) n = Index (level n) [chain k (Suc n)]"

text \<open>The tree of \<^verbatim>\<open>index.xml\<close>, an index of two leaves.\<close>

definition demo_tree :: sitemap_tree where
  "demo_tree =
     Index ''index.xml''
       [Leaf ''urls.xml'' [''https://a.test/x'', ''https://a.test/y''],
        Leaf ''more.xml'' [''https://a.test/z'']]"

text \<open>The tree of \<^verbatim>\<open>diamond.xml\<close>, an index that lists its first leaf a second time.\<close>

definition diamond_tree :: sitemap_tree where
  "diamond_tree =
     Index ''diamond.xml''
       [Leaf ''urls.xml'' [''https://a.test/x'', ''https://a.test/y''],
        Leaf ''more.xml'' [''https://a.test/z''],
        Leaf ''urls.xml'' [''https://a.test/x'', ''https://a.test/y'']]"

text \<open>Two remote sources: one answered 503 three times, one whose second attempt times out.\<close>

definition down_url :: string where
  "down_url = ''https://a.test/sitemap.xml''"

definition flaky_url :: string where
  "flaky_url = ''https://a.test/flaky.xml''"

section \<open>Properties\<close>

subsection \<open>Strings and elements\<close>









text \<open>
  Under the namespace name \<^verbatim>\<open>*\<close> the path of the extractor is the library's wildcard: every
  \<^verbatim>\<open>loc\<close> below the root is returned, whatever its namespace.
\<close>

lemma wildcard_namespace_example:
  "extract_urls_from_sitemap demo star_xml
     = (Inr [''https://a.test/p'', ''https://a.test/p.png'', ''https://a.test/q''], [])"
  by code_simp

subsection \<open>What prints does not fetch\<close>

lemma fetched_append [simp]: "fetched (xs @ ys) = fetched xs @ fetched ys"
  by (induction xs rule: fetched.induct) simp_all

lemma parsed_append [simp]: "parsed (xs @ ys) = parsed xs @ parsed ys"
  by (induction xs rule: parsed.induct) simp_all

lemma count_list_Fetch: "count_list evs (Fetch s) = count_list (fetched evs) s"
  by (induction evs rule: fetched.induct) simp_all

lemma count_list_Parse: "count_list evs (Parse s) = count_list (parsed evs) s"
  by (induction evs rule: parsed.induct) simp_all

lemma distinct_count_le_1: "distinct xs \<Longrightarrow> count_list xs x \<le> 1"
  by (induction xs) auto

lemma quiet_Nil [simp]: "quiet []"
  by (simp add: quiet_def)

lemma quiet_append [simp]: "quiet (xs @ ys) = (quiet xs \<and> quiet ys)"
  by (auto simp: quiet_def)

lemma quiet_Echo [simp]: "quiet (Echo m # evs) = quiet evs" "quiet (Echo_err m # evs) = quiet evs"
  by (simp_all add: quiet_def)

lemma quiet_fetched: "quiet evs \<Longrightarrow> fetched evs = []"
  and quiet_parsed: "quiet evs \<Longrightarrow> parsed evs = []"
  by (simp_all add: quiet_def)

lemma attempts_quiet: "quiet (snd (attempts w source ns last_exc))"
  by (induction ns arbitrary: last_exc)
     (simp_all add: case_prod_unfold Let_def split: attempt.splits)

lemma nav_events_quiet [simp]: "quiet (nav_events nav)"
  by (cases nav) (simp_all add: nav_events_def)

lemma playwright_fallback_quiet: "quiet (snd (playwright_fallback w source))"
  by (simp add: playwright_fallback_def Let_def split: session.splits)

lemma read_sitemap_quiet: "quiet (snd (read_sitemap w source))"
  using attempts_quiet [of w source "[0..<3]" None] playwright_fallback_quiet [of w source]
  by (auto simp: read_sitemap_def split: prod.splits attempts_result.splits)

lemma extract_urls_from_sitemap_quiet: "quiet (snd (extract_urls_from_sitemap w x))"
  by (simp add: extract_urls_from_sitemap_def split: sum.splits exn.splits)

lemma extract_sitemaps_from_index_quiet: "quiet (snd (extract_sitemaps_from_index w x))"
  by (simp add: extract_sitemaps_from_index_def split: sum.splits exn.splits)

lemma read_sitemap_quietD: "read_sitemap w source = (res, evs) \<Longrightarrow> quiet evs"
  using read_sitemap_quiet [of w source] by simp

lemma extract_urls_from_sitemap_quietD: "extract_urls_from_sitemap w x = (res, evs) \<Longrightarrow> quiet evs"
  using extract_urls_from_sitemap_quiet [of w x] by simp

lemma extract_sitemaps_from_index_quietD:
  "extract_sitemaps_from_index w x = (res, evs) \<Longrightarrow> quiet evs"
  using extract_sitemaps_from_index_quiet [of w x] by simp

lemmas quietD =
  read_sitemap_quietD extract_urls_from_sitemap_quietD extract_sitemaps_from_index_quietD

subsection \<open>The invariant of the resolver\<close>

text \<open>
  The loop keeps the invariant if every call it makes does; the calls are one level
  deeper, so the invariant of \<^verbatim>\<open>extract_all_urls\<close> follows by induction on the distance of
  the depth to the limit.
\<close>

lemma at_most_iff: "at_most n xs \<longleftrightarrow> (\<forall>x. count_list xs x \<le> n)"
proof
  assume a: "at_most n xs"
  show "\<forall>x. count_list xs x \<le> n"
  proof
    fix x
    show "count_list xs x \<le> n"
    proof (cases "x \<in> set xs")
      case True
      with a show ?thesis by (simp add: at_most_def list_all_iff)
    next
      case False
      then show ?thesis by (simp add: count_list_0_iff)
    qed
  qed
next
  assume "\<forall>x. count_list xs x \<le> n"
  then show "at_most n xs" by (simp add: at_most_def list_all_iff)
qed

lemma at_most_append:
  assumes "at_most n xs" "at_most n ys" "set xs \<inter> set ys = {}"
  shows "at_most n (xs @ ys)"
  unfolding at_most_iff
proof
  fix x
  have "count_list xs x = 0 \<or> count_list ys x = 0"
    using assms(3) by (auto simp: count_list_0_iff)
  then show "count_list (xs @ ys) x \<le> n"
    using assms(1,2) by (auto simp: at_most_iff)
qed

lemma at_most_twice: "s \<notin> set xs \<Longrightarrow> at_most 2 xs \<Longrightarrow> at_most 2 (s # s # xs)"
  by (auto simp: at_most_iff count_list_0_iff)

lemma at_most_small [simp]: "at_most 2 []" "at_most 2 [s]" "at_most 2 [s, s]"
  by (simp_all add: at_most_def)

lemma for_children_fresh_marks_step:
  assumes step: "\<And>s V r V' evs.
      extract_all_urls w s (depth + 1) V = (r, V', evs) \<Longrightarrow> fresh_marks V V' evs"
  shows "for_children w children depth all_urls V = (us, V', evs) \<Longrightarrow> fresh_marks V V' evs"
proof (induction children arbitrary: all_urls V us V' evs)
  case Nil
  then show ?case by (simp add: fresh_marks_def)
next
  case (Cons child rest)
  obtain r V1 e1 where c: "extract_all_urls w child (depth + 1) V = (r, V1, e1)"
    by (cases "extract_all_urls w child (depth + 1) V") auto
  have f1: "fresh_marks V V1 e1" using step [OF c] .
  have "\<exists>acc us' e2. for_children w rest depth acc V1 = (us', V', e2)
           \<and> fetched evs = fetched e1 @ fetched e2 \<and> parsed evs = parsed e1 @ parsed e2"
    using Cons.prems c by (auto split: sum.splits prod.splits) blast+
  then obtain acc us' e2 where l: "for_children w rest depth acc V1 = (us', V', e2)"
    and ev: "fetched evs = fetched e1 @ fetched e2" "parsed evs = parsed e1 @ parsed e2"
    by blast
  have f2: "fresh_marks V1 V' e2" using Cons.IH [OF l] .
  have "set (parsed e1) \<inter> set (parsed e2) = {}"
    using f1 f2 unfolding fresh_marks_def by auto
  then have "at_most 2 (parsed e1 @ parsed e2)"
    using f1 f2 by (intro at_most_append) (simp_all add: fresh_marks_def)
  with f1 f2 ev show ?case unfolding fresh_marks_def by auto
qed

lemma extract_all_urls_fresh_marks:
  "extract_all_urls w source depth V = (r, V', evs) \<Longrightarrow> fresh_marks V V' evs"
proof (induction "nat (MAX_SITEMAP_DEPTH - depth)" arbitrary: depth source V r V' evs
       rule: less_induct)
  case less
  have loop: "fresh_marks U U' es"
    if "\<not> MAX_SITEMAP_DEPTH \<le> depth" and "for_children w cs depth acc U = (us, U', es)"
    for cs acc U us U' es
  proof (rule for_children_fresh_marks_step [OF _ that(2)])
    fix s V r V' evs
    assume "extract_all_urls w s (depth + 1) V = (r, V', evs)"
    moreover have "nat (MAX_SITEMAP_DEPTH - (depth + 1)) < nat (MAX_SITEMAP_DEPTH - depth)"
      using that(1) by simp
    ultimately show "fresh_marks V V' evs" using less.hyps by blast
  qed
  show ?case
  proof (cases "source \<in> V")
    case True
    with less.prems show ?thesis
      by (simp add: extract_all_urls.simps fresh_marks_def)
  next
    case False
    show ?thesis
      using less.prems False
      apply (simp add: extract_all_urls.simps [of w source depth V])
      apply (auto simp: fresh_marks_def quiet_fetched quiet_parsed
                  dest!: quietD loop intro!: at_most_twice
                  split: prod.splits sum.splits bool.splits if_splits)
      done
  qed
qed

text \<open>A source already visited is skipped, by the guard and so by the loop too.\<close>

lemma extract_all_urls_visited:
  "source \<in> visited \<Longrightarrow> extract_all_urls w source depth visited = (Inr [], visited, [])"
  by (simp add: extract_all_urls.simps)

lemma for_children_skip_visited:
  "S \<in> V \<Longrightarrow>
     fst (for_children w cs d acc V) = fst (for_children w (filter (\<lambda>c. c \<noteq> S) cs) d acc V)
     \<and> fst (snd (for_children w cs d acc V))
         = fst (snd (for_children w (filter (\<lambda>c. c \<noteq> S) cs) d acc V))"
proof (induction cs arbitrary: acc V)
  case Nil
  then show ?case by simp
next
  case (Cons c cs)
  show ?case
  proof (cases "c = S")
    case True
    have "extract_all_urls w S (d + 1) V = (Inr [], V, [])"
      using Cons.prems by (rule extract_all_urls_visited)
    then show ?thesis
      using True Cons.IH [OF Cons.prems, of acc] by (simp add: case_prod_unfold)
  next
    case False
    obtain r V1 e1 where c: "extract_all_urls w c (d + 1) V = (r, V1, e1)"
      by (cases "extract_all_urls w c (d + 1) V") auto
    have "S \<in> V1"
      using extract_all_urls_fresh_marks [OF c] Cons.prems by (auto simp: fresh_marks_def)
    then show ?thesis
      using False c Cons.IH [of V1] by (cases r) (simp_all add: case_prod_unfold)
  qed
qed

subsection \<open>Resolving an index tree\<close>

text \<open>
  A world serves at most one tree from a given source, and a tree it serves holds no copy
  of itself; so a source met again below an index is never that index, and what an
  earlier sibling has visited is closed for the later ones.
\<close>

lemma map_fst_nodes: "map fst (nodes t) = sources t"
  by (induction t) (auto simp: map_concat intro: arg_cong [where f = concat])

lemma concat_snd_concat:
  "concat (map snd (concat xss)) = concat (map (\<lambda>xs. concat (map snd xs)) xss)"
  by (induction xss) auto

lemma concat_snd_nodes: "concat (map snd (nodes t)) = leaf_urls t"
proof (induction t)
  case (Leaf s us)
  then show ?case by simp
next
  case (Index s ts)
  have "map (\<lambda>t. concat (map snd (nodes t))) ts = map leaf_urls ts"
    using Index.IH by simp
  then have "concat (map (\<lambda>t. concat (map snd (nodes t))) ts) = concat (map leaf_urls ts)"
    by (rule arg_cong)
  then show ?case by (simp add: concat_snd_concat comp_def)
qed

lemma first_seen_append:
  "first_seen V (xs @ ys) = first_seen V xs @ first_seen (V \<union> fst ` set xs) ys"
  by (induction V xs rule: first_seen.induct) (auto simp: insert_absorb)

lemma first_seen_all_seen: "fst ` set xs \<subseteq> V \<Longrightarrow> first_seen V xs = []"
  by (induction V xs rule: first_seen.induct) auto

lemma first_seen_distinct:
  "distinct (map fst xs) \<Longrightarrow> fst ` set xs \<inter> V = {} \<Longrightarrow> first_seen V xs = concat (map snd xs)"
  by (induction V xs rule: first_seen.induct) auto

lemma self_subtree: "t \<in> set (subtrees t)"
  by (cases t) auto

lemma subtree_child: "c \<in> set ts \<Longrightarrow> u \<in> set (subtrees c) \<Longrightarrow> u \<in> set (subtrees (Index s ts))"
  by auto

lemma subtree_sources: "u \<in> set (subtrees t) \<Longrightarrow> set (sources u) \<subseteq> set (sources t)"
  by (induction t) auto

lemma subtree_length: "u \<in> set (subtrees t) \<Longrightarrow> length (sources u) \<le> length (sources t)"
proof (induction t)
  case (Leaf s us)
  then show ?case by auto
next
  case (Index s ts)
  show ?case
  proof (cases "u = Index s ts")
    case True
    then show ?thesis by simp
  next
    case False
    with Index.prems obtain c where c: "c \<in> set ts" "u \<in> set (subtrees c)" by auto
    then have "length (sources u) \<le> length (sources c)" by (rule Index.IH)
    moreover have "length (sources c) \<le> length (concat (map sources ts))"
      using c(1) by (induction ts) auto
    ultimately show ?thesis by simp
  qed
qed

lemma child_length: "c \<in> set ts \<Longrightarrow> length (sources c) < length (sources (Index s ts))"
proof -
  assume "c \<in> set ts"
  then have "length (sources c) \<le> length (concat (map sources ts))"
    by (induction ts) auto
  then show ?thesis by simp
qed

lemma source_has_subtree: "s \<in> set (sources t) \<Longrightarrow> \<exists>u \<in> set (subtrees t). root_source u = s"
  by (induction t) auto

lemma serves_subtree: "serves w t \<Longrightarrow> u \<in> set (subtrees t) \<Longrightarrow> serves w u"
  by (induction t) (auto simp: list_all_iff split: sum.splits)

lemma serves_unique: "serves w t \<Longrightarrow> serves w u \<Longrightarrow> root_source t = root_source u \<Longrightarrow> t = u"
proof (induction t arbitrary: u)
  case (Leaf s us)
  then show ?case by (cases u) (auto split: sum.splits)
next
  case (Index s ts)
  from Index.prems obtain ts' where u: "u = Index s ts'"
    by (cases u) (auto split: sum.splits)
  from Index.prems u have m: "map root_source ts = map root_source ts'"
    and sv: "list_all (serves w) ts" "list_all (serves w) ts'"
    by (auto split: sum.splits)
  from m have len: "length ts = length ts'" by (rule map_eq_imp_length_eq)
  have "ts = ts'"
  proof (rule nth_equalityI [OF len])
    fix i assume i: "i < length ts"
    have "root_source (ts ! i) = root_source (ts' ! i)"
      using m i len by (metis nth_map)
    moreover have "serves w (ts ! i)" "serves w (ts' ! i)"
      using sv i len by (simp_all add: list_all_length)
    ultimately show "ts ! i = ts' ! i" using i by (intro Index.IH) auto
  qed
  with u show ?case by simp
qed

lemma closed_for_after:
  assumes "closed_for V t'" "serves w t" "serves w t'"
  shows "closed_for (V \<union> set (sources t)) t'"
  unfolding closed_for_def
proof (intro ballI impI)
  fix u assume u: "u \<in> set (subtrees t')" and r: "root_source u \<in> V \<union> set (sources t)"
  show "set (sources u) \<subseteq> V \<union> set (sources t)"
  proof (cases "root_source u \<in> V")
    case True
    with assms(1) u show ?thesis by (auto simp: closed_for_def)
  next
    case False
    with r obtain u' where u': "u' \<in> set (subtrees t)" "root_source u' = root_source u"
      using source_has_subtree by blast
    have "u' = u"
      using serves_subtree [OF assms(2) u'(1)] serves_subtree [OF assms(3) u] u'(2)
      by (rule serves_unique)
    with subtree_sources [OF u'(1)] show ?thesis by auto
  qed
qed

lemma closed_for_child:
  assumes "closed_for V (Index s ts)" "serves w (Index s ts)" "c \<in> set ts"
  shows "closed_for (insert s V) c"
  unfolding closed_for_def
proof (intro ballI impI)
  fix u assume u: "u \<in> set (subtrees c)" and r: "root_source u \<in> insert s V"
  have ut: "u \<in> set (subtrees (Index s ts))" using assms(3) u by (rule subtree_child)
  have "root_source u \<noteq> s"
  proof
    assume "root_source u = s"
    then have "Index s ts = u"
      using serves_unique [OF assms(2) serves_subtree [OF assms(2) ut]] by simp
    moreover have "length (sources u) < length (sources (Index s ts))"
      using subtree_length [OF u] child_length [OF assms(3), of s] by simp
    ultimately show False by simp
  qed
  with r have "root_source u \<in> V" by simp
  with assms(1) ut have "set (sources u) \<subseteq> V" unfolding closed_for_def by blast
  then show "set (sources u) \<subseteq> insert s V" by auto
qed

lemma for_children_first_seen:
  assumes IH: "\<And>t V. t \<in> set ts \<Longrightarrow> serves w t \<Longrightarrow> within_depth (d + 1) t \<Longrightarrow> closed_for V t
        \<Longrightarrow> \<exists>evs. extract_all_urls w (root_source t) (d + 1) V
                  = (Inr (first_seen V (nodes t)), V \<union> set (sources t), evs)"
  shows "list_all (serves w) ts \<Longrightarrow> list_all (within_depth (d + 1)) ts
     \<Longrightarrow> \<forall>t \<in> set ts. closed_for V t
     \<Longrightarrow> \<exists>evs. for_children w (map root_source ts) d acc V
            = (acc @ first_seen V (concat (map nodes ts)), V \<union> set (concat (map sources ts)), evs)"
  using IH
proof (induction ts arbitrary: acc V)
  case Nil
  then show ?case by simp
next
  case (Cons t ts)
  have "\<exists>evs. extract_all_urls w (root_source t) (d + 1) V
          = (Inr (first_seen V (nodes t)), V \<union> set (sources t), evs)"
    using Cons.prems by (intro Cons.prems(4)) auto
  then obtain e1 where h: "extract_all_urls w (root_source t) (d + 1) V
      = (Inr (first_seen V (nodes t)), V \<union> set (sources t), e1)"
    by blast
  have cl: "\<forall>t' \<in> set ts. closed_for (V \<union> set (sources t)) t'"
    using Cons.prems(1,3) by (auto intro!: closed_for_after [where w = w] simp: list_all_iff)
  have "\<exists>evs. for_children w (map root_source ts) d (acc @ first_seen V (nodes t)) (V \<union> set (sources t))
      = ((acc @ first_seen V (nodes t)) @ first_seen (V \<union> set (sources t)) (concat (map nodes ts)),
         (V \<union> set (sources t)) \<union> set (concat (map sources ts)), evs)"
    using Cons.prems(1,2) cl Cons.prems(4) by (intro Cons.IH) auto
  then obtain e2 where
    t: "for_children w (map root_source ts) d (acc @ first_seen V (nodes t)) (V \<union> set (sources t))
      = ((acc @ first_seen V (nodes t)) @ first_seen (V \<union> set (sources t)) (concat (map nodes ts)),
         (V \<union> set (sources t)) \<union> set (concat (map sources ts)), e2)"
    by blast
  have "fst ` set (nodes t) = set (sources t)"
    using map_fst_nodes [of t] by (metis set_map)
  then show ?case using h t by (simp add: Un_assoc first_seen_append)
qed

lemma extract_all_urls_first_seen:
  "serves w t \<Longrightarrow> within_depth d t \<Longrightarrow> closed_for V t
     \<Longrightarrow> \<exists>evs. extract_all_urls w (root_source t) d V
            = (Inr (first_seen V (nodes t)), V \<union> set (sources t), evs)"
proof (induction t arbitrary: d V)
  case (Leaf source urls)
  then show ?case
    by (auto simp: extract_all_urls.simps [of w source d V] insert_absorb split: sum.splits prod.splits)
next
  case (Index source ts)
  show ?case
  proof (cases "source \<in> V")
    case True
    have "set (sources (Index source ts)) \<subseteq> V"
      using Index.prems(3) True self_subtree [of "Index source ts"]
      unfolding closed_for_def by force
    moreover from this have "first_seen V (nodes (Index source ts)) = []"
      by (intro first_seen_all_seen) (metis map_fst_nodes set_map)
    ultimately show ?thesis using True
      by (auto simp: extract_all_urls.simps [of w source d V])
  next
    case False
    obtain res evs0 where rs0: "read_sitemap w source = (res, evs0)"
      by (cases "read_sitemap w source")
    with Index.prems(1) obtain doc where rs: "read_sitemap w source = (Inr doc, evs0)"
      and ix: "is_sitemap_index w doc = Inr True"
      and cs0: "fst (extract_sitemaps_from_index w doc) = Inr (map root_source ts)"
      and sv: "list_all (serves w) ts"
      by (auto split: sum.splits)
    from cs0 obtain evs2 where
      cs: "extract_sitemaps_from_index w doc = (Inr (map root_source ts), evs2)"
      by (cases "extract_sitemaps_from_index w doc") auto
    have "\<exists>evs. for_children w (map root_source ts) d [] (insert source V)
              = ([] @ first_seen (insert source V) (concat (map nodes ts)),
                 insert source V \<union> set (concat (map sources ts)), evs)"
    proof (rule for_children_first_seen)
      show "list_all (serves w) ts" by (rule sv)
      show "list_all (within_depth (d + 1)) ts" using Index.prems(2) by simp
      show "\<forall>t \<in> set ts. closed_for (insert source V) t"
        using closed_for_child [OF Index.prems(3,1)] by blast
    next
      fix t V assume "t \<in> set ts" "serves w t" "within_depth (d + 1) t" "closed_for V t"
      then show "\<exists>evs. extract_all_urls w (root_source t) (d + 1) V
                   = (Inr (first_seen V (nodes t)), V \<union> set (sources t), evs)"
        by (rule Index.IH)
    qed
    then obtain e3 where lp: "for_children w (map root_source ts) d [] (insert source V)
              = (first_seen (insert source V) (concat (map nodes ts)),
                 insert source V \<union> set (concat (map sources ts)), e3)"
      by auto
    have "\<not> MAX_SITEMAP_DEPTH \<le> d" using Index.prems(2) by auto
    then show ?thesis using False rs ix cs lp
      by (simp add: extract_all_urls.simps [of w source d V])
  qed
qed

lemma closed_for_empty: "closed_for {} t"
  by (simp add: closed_for_def)

subsection \<open>The fetcher when every attempt fails\<close>

lemma attempts_all_failed:
  "list_all failed (map (requests_get w source) ns)
   \<Longrightarrow> fst (attempts w source ns last_exc)
       = Exhausted (case last_raised (map (requests_get w source) ns) of
                      None \<Rightarrow> last_exc | Some e \<Rightarrow> Some e)"
proof (induction ns arbitrary: last_exc)
  case Nil
  then show ?case by simp
next
  case (Cons n ns)
  then show ?case
    by (cases "requests_get w source n")
       (auto simp: case_prod_unfold Let_def split: option.splits)
qed

lemma read_sitemap_all_failed:
  assumes "is_remote source" "\<not> PLAYWRIGHT_AVAILABLE w"
    "list_all failed (map (requests_get w source) [0..<3])"
  shows "fst (read_sitemap w source)
           = Inl (Fetch_failed source (last_raised (map (requests_get w source) [0..<3])))"
proof -
  have "fst (attempts w source [0..<3] None)
          = Exhausted (last_raised (map (requests_get w source) [0..<3]))"
    using attempts_all_failed [OF assms(3), of None] by (simp split: option.splits)
  then show ?thesis using assms(1,2)
    by (cases "attempts w source [0..<3] None") (simp add: read_sitemap_def)
qed

text \<open>A remote source fails with a \<^verbatim>\<open>RequestException\<close> or not at all.\<close>

lemma remote_failure_is_RequestException:
  assumes "is_remote source" "fst (read_sitemap w source) = Inl e"
  shows "is_RequestException e"
  using assms
  by (auto simp: read_sitemap_def playwright_fallback_def Let_def
           split: prod.splits attempts_result.splits if_splits session.splits)

lemma extract_all_urls_fetch_failed:
  assumes "source \<notin> visited" "fst (read_sitemap w source) = Inl e" "is_RequestException e"
  shows "extract_all_urls w source depth visited
     = (Inr [], insert source visited,
        Fetch source # snd (read_sitemap w source) @ [Echo_err (Warning_could_not_fetch source e)])"
  using assms
  by (cases "read_sitemap w source") (simp add: extract_all_urls.simps [of w source depth visited])

section \<open>The claims\<close>

text \<open>
  C1. For every index tree of sitemap documents whose indexes all lie at a depth below 20
  (\<^verbatim>\<open>MAX_SITEMAP_DEPTH\<close>), the root being at depth 0, \<^verbatim>\<open>extract_all_urls(source)\<close> returns
  the concatenation, depth first in document order, of the URL lists of the documents of
  the tree, each document giving its URLs once, where its source first occurs: a source
  listed again gives nothing more. When no source occurs twice this is the concatenation
  of the URL lists of all leaves.
\<close>

theorem index_tree_resolved:
  assumes "serves w t" and "within_depth 0 t"
  shows "fst (extract_all_urls w (root_source t) 0 {}) = Inr (first_seen {} (nodes t))
         \<and> (distinct (sources t)
              \<longrightarrow> fst (extract_all_urls w (root_source t) 0 {}) = Inr (leaf_urls t))"
proof -
  have a: "fst (extract_all_urls w (root_source t) 0 {}) = Inr (first_seen {} (nodes t))"
    using extract_all_urls_first_seen [OF assms closed_for_empty] by auto
  have "first_seen {} (nodes t) = leaf_urls t" if "distinct (sources t)"
    using that first_seen_distinct [of "nodes t" "{}"]
    by (simp add: map_fst_nodes concat_snd_nodes)
  with a show ?thesis by simp
qed

theorem index_tree_resolved_witness:
  "serves demo diamond_tree \<and> within_depth 0 diamond_tree
   \<and> fst (extract_all_urls demo ''diamond.xml'' 0 {}) = Inr [''https://a.test/x'', ''https://a.test/y'', ''https://a.test/z'']
   \<and> serves demo demo_tree \<and> within_depth 0 demo_tree \<and> distinct (sources demo_tree)
   \<and> fst (extract_all_urls demo ''index.xml'' 0 {}) = Inr [''https://a.test/x'', ''https://a.test/y'', ''https://a.test/z'']"
proof -
  have h1: "serves demo diamond_tree" by code_simp
  have h2: "within_depth 0 diamond_tree" by code_simp
  have r: "root_source diamond_tree = ''diamond.xml''" by (simp add: diamond_tree_def)
  have v: "first_seen {} (nodes diamond_tree) = [''https://a.test/x'', ''https://a.test/y'', ''https://a.test/z'']"
    by (simp add: diamond_tree_def)
  from index_tree_resolved [OF h1 h2]
  have a: "fst (extract_all_urls demo ''diamond.xml'' 0 {}) = Inr [''https://a.test/x'', ''https://a.test/y'', ''https://a.test/z'']"
    by (simp only: r v)
  have k1: "serves demo demo_tree" by code_simp
  have k2: "within_depth 0 demo_tree" by code_simp
  have k3: "distinct (sources demo_tree)" by code_simp
  have r': "root_source demo_tree = ''index.xml''" by (simp add: demo_tree_def)
  have l: "leaf_urls demo_tree = [''https://a.test/x'', ''https://a.test/y'', ''https://a.test/z'']"
    by (simp add: demo_tree_def)
  from index_tree_resolved [OF k1 k2] k3
  have "fst (extract_all_urls demo (root_source demo_tree) 0 {}) = Inr (leaf_urls demo_tree)"
    by blast
  then have b: "fst (extract_all_urls demo ''index.xml'' 0 {}) = Inr [''https://a.test/x'', ''https://a.test/y'', ''https://a.test/z'']"
    by (simp only: r' l)
  from h1 h2 a k1 k2 k3 b show ?thesis by blast
qed

text \<open>
  Without the bound on the depth the property fails: the chain of 21 indexes over the leaf
  with two URLs is served, is acyclic, and resolves to nothing, since its last index is
  met at depth 20. And a leaf listed twice gives its URLs once, not once for each place
  it is listed at: the index of \<^verbatim>\<open>urls.xml\<close>, \<^verbatim>\<open>more.xml\<close> and \<^verbatim>\<open>urls.xml\<close> again resolves to
  three URLs where its leaves hold five.
\<close>

theorem deep_chain_counterexample:
  "serves demo (chain 21 0) \<and> distinct (sources (chain 21 0))
   \<and> root_source (chain 21 0) = level 0
   \<and> leaf_urls (chain 21 0) = [''https://a.test/x'', ''https://a.test/y'']
   \<and> fst (extract_all_urls demo (level 0) 0 {}) = Inr []
   \<and> serves demo diamond_tree \<and> within_depth 0 diamond_tree
   \<and> root_source diamond_tree = ''diamond.xml''
   \<and> leaf_urls diamond_tree
       = [''https://a.test/x'', ''https://a.test/y'', ''https://a.test/z'',
          ''https://a.test/x'', ''https://a.test/y'']
   \<and> fst (extract_all_urls demo ''diamond.xml'' 0 {}) = Inr [''https://a.test/x'', ''https://a.test/y'', ''https://a.test/z'']"
proof -
  have "serves demo (chain 21 0)" by code_simp
  moreover have "distinct (sources (chain 21 0))" by code_simp
  moreover have "root_source (chain 21 0) = level 0" by code_simp
  moreover have "leaf_urls (chain 21 0) = [''https://a.test/x'', ''https://a.test/y'']"
    by code_simp
  moreover have "fst (extract_all_urls demo (level 0) 0 {}) = Inr []" by code_simp
  moreover have "serves demo diamond_tree" by code_simp
  moreover have "within_depth 0 diamond_tree" by code_simp
  moreover have "root_source diamond_tree = ''diamond.xml''" by code_simp
  moreover have "leaf_urls diamond_tree
       = [''https://a.test/x'', ''https://a.test/y'', ''https://a.test/z'',
          ''https://a.test/x'', ''https://a.test/y'']" by code_simp
  moreover have "fst (extract_all_urls demo ''diamond.xml'' 0 {}) = Inr [''https://a.test/x'', ''https://a.test/y'', ''https://a.test/z'']" by code_simp
  ultimately show ?thesis by blast
qed

text \<open>
  C2. In a top-level call of \<^verbatim>\<open>extract_all_urls\<close>, whatever the world answers and however
  often the index documents mention a source \<open>S\<close> (diamonds and cycles included),
  \<^verbatim>\<open>read_sitemap(S)\<close> is called at most once, and \<^verbatim>\<open>ET.fromstring\<close> is called on the document
  of \<open>S\<close> at most twice: once by the classifier and once by the extractor, both within
  the one call that fetched it.
\<close>

theorem fetched_once_parsed_twice:
  "count_list (snd (snd (extract_all_urls w source 0 {}))) (Fetch S) \<le> 1
   \<and> count_list (snd (snd (extract_all_urls w source 0 {}))) (Parse S) \<le> 2"
proof -
  obtain r V' evs where c: "extract_all_urls w source 0 {} = (r, V', evs)"
    by (cases "extract_all_urls w source 0 {}") auto
  have d: "distinct (fetched evs)" "at_most 2 (parsed evs)"
    using extract_all_urls_fresh_marks [OF c] by (simp_all add: fresh_marks_def)
  have "count_list (fetched evs) S \<le> 1" using d(1) by (rule distinct_count_le_1)
  moreover have "count_list (parsed evs) S \<le> 2" using d(2) by (simp add: at_most_iff)
  ultimately show ?thesis
    using c by (simp add: count_list_Fetch count_list_Parse)
qed

text \<open>
  A document is parsed more than once: resolving the single leaf \<^verbatim>\<open>urls.xml\<close> fetches it
  once and parses it twice.
\<close>

theorem parsed_twice_counterexample:
  "extract_all_urls demo ''urls.xml'' 0 {}
     = (Inr [''https://a.test/x'', ''https://a.test/y''], {''urls.xml''}, [Fetch ''urls.xml'', Parse ''urls.xml'', Parse ''urls.xml''])
   \<and> count_list [Fetch ''urls.xml'', Parse ''urls.xml'', Parse ''urls.xml''] (Parse ''urls.xml'') = 2"
proof -
  have "extract_all_urls demo ''urls.xml'' 0 {}
     = (Inr [''https://a.test/x'', ''https://a.test/y''], {''urls.xml''}, [Fetch ''urls.xml'', Parse ''urls.xml'', Parse ''urls.xml''])"
    by code_simp
  moreover have "count_list [Fetch ''urls.xml'', Parse ''urls.xml'', Parse ''urls.xml'']
                   (Parse ''urls.xml'') = 2"
    by simp
  ultimately show ?thesis by blast
qed




text \<open>
  C4. When the document fetched for a source does not parse as XML, the classifier takes it
  for a leaf, \<^verbatim>\<open>extract_urls_from_sitemap\<close> raises \<^verbatim>\<open>typer.Exit(1)\<close>, and
  \<^verbatim>\<open>extract_all_urls\<close> catches it: the call prints the parse error and a warning and
  returns the empty list for that source, so the resolution goes on. (The two parse marks
  are the two attempts to parse the document, by the classifier and by the extractor.)
\<close>

theorem parse_failure_is_caught:
  assumes "source \<notin> visited" and "read_sitemap w source = (Inr doc, evs)"
    and "fromstring w doc = Inl (ParseError m)"
  shows "extract_all_urls w source depth visited
     = (Inr [], insert source visited,
        Fetch source # evs
          @ [Parse source, Parse source, Echo_err (Error_parsing_XML (ParseError m)),
             Echo_err (Warning_could_not_parse source (Exit 1))])"
  using assms
  by (simp add: extract_all_urls.simps [of w source depth visited] is_sitemap_index_def
      extract_urls_from_sitemap_def)

theorem parse_failure_is_caught_witness:
  "''broken.xml'' \<notin> ({} :: string set)
   \<and> read_sitemap demo ''broken.xml'' = (Inr broken_xml, [])
   \<and> fromstring demo broken_xml = Inl (ParseError ''not well-formed'')
   \<and> extract_all_urls demo ''broken.xml'' 0 {}
       = (Inr [], {''broken.xml''},
          [Fetch ''broken.xml'', Parse ''broken.xml'', Parse ''broken.xml'',
           Echo_err (Error_parsing_XML (ParseError ''not well-formed'')),
           Echo_err (Warning_could_not_parse ''broken.xml'' (Exit 1))])"
proof -
  have h1: "''broken.xml'' \<notin> ({} :: string set)" by simp
  have h2: "read_sitemap demo ''broken.xml'' = (Inr broken_xml, [])" by code_simp
  have h3: "fromstring demo broken_xml = Inl (ParseError ''not well-formed'')" by code_simp
  from parse_failure_is_caught [OF h1 h2 h3, of 0]
  have "extract_all_urls demo ''broken.xml'' 0 {}
       = (Inr [], {''broken.xml''},
          [Fetch ''broken.xml'', Parse ''broken.xml'', Parse ''broken.xml'',
           Echo_err (Error_parsing_XML (ParseError ''not well-formed'')),
           Echo_err (Warning_could_not_parse ''broken.xml'' (Exit 1))])"
    by simp
  with h1 h2 h3 show ?thesis by blast
qed

text \<open>
  The parse error is not fatal: an index of a broken leaf and a good one resolves to the
  URLs of the good one, and the command exits with status 0.
\<close>

theorem broken_leaf_counterexample:
  "read_sitemap demo ''broken.xml'' = (Inr broken_xml, [])
   \<and> is_sitemap_index demo broken_xml = Inr False
   \<and> fromstring demo broken_xml = Inl (ParseError ''not well-formed'')
   \<and> fst (extract_all_urls demo ''mixed.xml'' 0 {}) = Inr [''https://a.test/x'', ''https://a.test/y'']
   \<and> fst (main demo (Some ''mixed.xml'')) = 0"
proof -
  have "read_sitemap demo ''broken.xml'' = (Inr broken_xml, [])" by code_simp
  moreover have "is_sitemap_index demo broken_xml = Inr False" by code_simp
  moreover have "fromstring demo broken_xml = Inl (ParseError ''not well-formed'')" by code_simp
  moreover have "fst (extract_all_urls demo ''mixed.xml'' 0 {})
                   = Inr [''https://a.test/x'', ''https://a.test/y'']" by code_simp
  moreover have "fst (main demo (Some ''mixed.xml'')) = 0" by code_simp
  ultimately show ?thesis by blast
qed

text \<open>
  C5. For every document that is not well-formed XML, \<^verbatim>\<open>is_sitemap_index\<close> catches the
  \<^verbatim>\<open>ParseError\<close> and answers \<^verbatim>\<open>False\<close>: the document is classified as a leaf.
\<close>

theorem malformed_is_not_index:
  "fromstring w x = Inl (ParseError m) \<Longrightarrow> is_sitemap_index w x = Inr False"
  by (simp add: is_sitemap_index_def)

theorem malformed_is_not_index_witness:
  "fromstring demo ''<a>'' = Inl (ParseError ''not well-formed'')
   \<and> is_sitemap_index demo ''<a>'' = Inr False"
proof -
  have h: "fromstring demo ''<a>'' = Inl (ParseError ''not well-formed'')" by code_simp
  from malformed_is_not_index [OF h] h show ?thesis by blast
qed

text \<open>The classifier does not fail on a malformed document.\<close>

theorem classifier_counterexample:
  "fromstring demo broken_xml = Inl (ParseError ''not well-formed'')
   \<and> is_sitemap_index demo broken_xml = Inr False"
proof -
  have "fromstring demo broken_xml = Inl (ParseError ''not well-formed'')" by code_simp
  moreover have "is_sitemap_index demo broken_xml = Inr False" by code_simp
  ultimately show ?thesis by blast
qed

text \<open>
  C6. For every remote top-level source whose fetch fails, after the three attempts and
  the interactive fallback where there is one, the error is a \<^verbatim>\<open>RequestException\<close> that
  \<^verbatim>\<open>extract_all_urls\<close> catches: the resolver prints a warning and returns the empty list to
  its caller, and \<^verbatim>\<open>main\<close>, finding no URL, prints that no URLs were found and an error
  line, both on standard error, and exits with status 1.
\<close>

theorem top_level_fetch_failure:
  assumes "is_remote source" and "fst (read_sitemap w source) = Inl e"
  shows "extract_all_urls w source 0 {}
           = (Inr [], {source},
              Fetch source # snd (read_sitemap w source)
                @ [Echo_err (Warning_could_not_fetch source e)])
         \<and> main w (Some source)
           = (1, log_public_ip w
                   @ Fetch source # snd (read_sitemap w source)
                   @ [Echo_err (Warning_could_not_fetch source e),
                      Echo_err No_URLs_found, Echo_err (Error_message (Exit 1))])"
proof -
  have r: "is_RequestException e" using assms by (rule remote_failure_is_RequestException)
  have x: "extract_all_urls w source 0 {}
           = (Inr [], {source},
              Fetch source # snd (read_sitemap w source)
                @ [Echo_err (Warning_could_not_fetch source e)])"
    using extract_all_urls_fetch_failed [of source "{}" w e 0] assms(2) r by simp
  have "source \<noteq> []" using assms(1) by (auto simp: is_remote_def startswith_def)
  with x show ?thesis by (simp add: main_def)
qed

theorem top_level_fetch_failure_witness:
  "is_remote down_url \<and> fst (read_sitemap demo down_url) = Inl (Fetch_failed down_url None)
   \<and> fst (extract_all_urls demo down_url 0 {}) = Inr []
   \<and> main demo (Some down_url)
       = (1, [Echo (Info_public_ip ''192.0.2.1''), Fetch down_url,
              Echo_err (Warning_http_status 503 down_url 1), Echo_err Debug_headers,
              Echo_err (Warning_http_status 503 down_url 2), Echo_err Debug_headers,
              Echo_err (Warning_http_status 503 down_url 3), Echo_err Debug_headers,
              Echo_err Error_playwright_not_installed,
              Echo_err (Warning_could_not_fetch down_url (Fetch_failed down_url None)),
              Echo_err No_URLs_found, Echo_err (Error_message (Exit 1))])"
proof -
  have h1: "is_remote down_url" by code_simp
  have h2: "fst (read_sitemap demo down_url) = Inl (Fetch_failed down_url None)" by code_simp
  have v1: "snd (read_sitemap demo down_url)
              = [Echo_err (Warning_http_status 503 down_url 1), Echo_err Debug_headers,
                 Echo_err (Warning_http_status 503 down_url 2), Echo_err Debug_headers,
                 Echo_err (Warning_http_status 503 down_url 3), Echo_err Debug_headers,
                 Echo_err Error_playwright_not_installed]"
    by code_simp
  have v2: "log_public_ip demo = [Echo (Info_public_ip ''192.0.2.1'')]" by code_simp
  from top_level_fetch_failure [OF h1 h2]
  have "fst (extract_all_urls demo down_url 0 {}) = Inr []"
    and "main demo (Some down_url)
       = (1, [Echo (Info_public_ip ''192.0.2.1''), Fetch down_url,
              Echo_err (Warning_http_status 503 down_url 1), Echo_err Debug_headers,
              Echo_err (Warning_http_status 503 down_url 2), Echo_err Debug_headers,
              Echo_err (Warning_http_status 503 down_url 3), Echo_err Debug_headers,
              Echo_err Error_playwright_not_installed,
              Echo_err (Warning_could_not_fetch down_url (Fetch_failed down_url None)),
              Echo_err No_URLs_found, Echo_err (Error_message (Exit 1))])"
    by (simp_all add: v1 v2)
  with h1 h2 show ?thesis by blast
qed

text \<open>The failure of the top-level fetch does not leave the resolver as an exception.\<close>

theorem fetch_failure_counterexample:
  "is_remote down_url
   \<and> fst (read_sitemap demo down_url) = Inl (Fetch_failed down_url None)
   \<and> extract_all_urls demo down_url 0 {}
       = (Inr [], {down_url},
          [Fetch down_url,
           Echo_err (Warning_http_status 503 down_url 1), Echo_err Debug_headers,
           Echo_err (Warning_http_status 503 down_url 2), Echo_err Debug_headers,
           Echo_err (Warning_http_status 503 down_url 3), Echo_err Debug_headers,
           Echo_err Error_playwright_not_installed,
           Echo_err (Warning_could_not_fetch down_url (Fetch_failed down_url None))])"
proof -
  have "is_remote down_url" by code_simp
  moreover have "fst (read_sitemap demo down_url) = Inl (Fetch_failed down_url None)"
    by code_simp
  moreover have "extract_all_urls demo down_url 0 {}
       = (Inr [], {down_url},
          [Fetch down_url,
           Echo_err (Warning_http_status 503 down_url 1), Echo_err Debug_headers,
           Echo_err (Warning_http_status 503 down_url 2), Echo_err Debug_headers,
           Echo_err (Warning_http_status 503 down_url 3), Echo_err Debug_headers,
           Echo_err Error_playwright_not_installed,
           Echo_err (Warning_could_not_fetch down_url (Fetch_failed down_url None))])"
    by code_simp
  ultimately show ?thesis by blast
qed

text \<open>
  C7. For every remote source whose three attempts all fail, Playwright not being
  available, \<^verbatim>\<open>read_sitemap\<close> raises a \<^verbatim>\<open>RequestException\<close> that carries \<^verbatim>\<open>last_exc\<close>: the
  exception of the last attempt that raised one, and nothing when every attempt ended
  with a status other than 200. \<^verbatim>\<open>extract_all_urls\<close> for that source, when it has not
  been visited, prints a warning and returns the empty list; no exception leaves it.
\<close>

theorem all_attempts_failed:
  assumes "is_remote source" and "\<not> PLAYWRIGHT_AVAILABLE w"
    and "list_all failed (map (requests_get w source) [0..<3])"
  shows "fst (read_sitemap w source)
           = Inl (Fetch_failed source (last_raised (map (requests_get w source) [0..<3])))
     \<and> (source \<notin> visited \<longrightarrow>
          extract_all_urls w source depth visited
            = (Inr [], insert source visited,
               Fetch source # snd (read_sitemap w source)
                 @ [Echo_err (Warning_could_not_fetch source
                      (Fetch_failed source
                         (last_raised (map (requests_get w source) [0..<3]))))]))"
  using read_sitemap_all_failed [OF assms]
    extract_all_urls_fetch_failed [of source visited w _ depth]
  by simp

theorem all_attempts_failed_witness:
  "is_remote flaky_url \<and> \<not> PLAYWRIGHT_AVAILABLE demo
   \<and> list_all failed (map (requests_get demo flaky_url) [0..<3])
   \<and> flaky_url \<notin> ({} :: string set)
   \<and> fst (read_sitemap demo flaky_url)
       = Inl (Fetch_failed flaky_url (Some (RequestError ''timed out'')))
   \<and> fst (extract_all_urls demo flaky_url 0 {}) = Inr []"
proof -
  have h1: "is_remote flaky_url" by code_simp
  have h2: "\<not> PLAYWRIGHT_AVAILABLE demo" by code_simp
  have h3: "list_all failed (map (requests_get demo flaky_url) [0..<3])" by code_simp
  have h4: "flaky_url \<notin> ({} :: string set)" by simp
  have v: "last_raised (map (requests_get demo flaky_url) [0..<3])
             = Some (RequestError ''timed out'')" by code_simp
  from all_attempts_failed [OF h1 h2 h3, of "{}" 0]
  have "fst (read_sitemap demo flaky_url)
          = Inl (Fetch_failed flaky_url (Some (RequestError ''timed out'')))"
    and "fst (extract_all_urls demo flaky_url 0 {}) = Inr []"
    by (simp_all add: v)
  with h1 h2 h3 h4 show ?thesis by blast
qed

text \<open>
  After three answers 503 the exception carries no cause at all, though the last attempt
  failed with that status.
\<close>

theorem no_cause_counterexample:
  "is_remote down_url \<and> \<not> PLAYWRIGHT_AVAILABLE demo
   \<and> map (requests_get demo down_url) [0..<3]
       = [Response 503 ''Service Unavailable'', Response 503 ''Service Unavailable'',
          Response 503 ''Service Unavailable'']
   \<and> read_sitemap demo down_url
       = (Inl (Fetch_failed down_url None),
          [Echo_err (Warning_http_status 503 down_url 1), Echo_err Debug_headers,
           Echo_err (Warning_http_status 503 down_url 2), Echo_err Debug_headers,
           Echo_err (Warning_http_status 503 down_url 3), Echo_err Debug_headers,
           Echo_err Error_playwright_not_installed])"
proof -
  have "is_remote down_url" by code_simp
  moreover have "\<not> PLAYWRIGHT_AVAILABLE demo" by code_simp
  moreover have "map (requests_get demo down_url) [0..<3]
       = [Response 503 ''Service Unavailable'', Response 503 ''Service Unavailable'',
          Response 503 ''Service Unavailable'']" by code_simp
  moreover have "read_sitemap demo down_url
       = (Inl (Fetch_failed down_url None),
          [Echo_err (Warning_http_status 503 down_url 1), Echo_err Debug_headers,
           Echo_err (Warning_http_status 503 down_url 2), Echo_err Debug_headers,
           Echo_err (Warning_http_status 503 down_url 3), Echo_err Debug_headers,
           Echo_err Error_playwright_not_installed])" by code_simp
  ultimately show ?thesis by blast
qed

text \<open>
  C8. For every call of \<^verbatim>\<open>extract_all_urls\<close> that fetches an index document at a depth of
  20 (\<^verbatim>\<open>MAX_SITEMAP_DEPTH\<close>) or more, the call prints the warning that the maximal depth is
  reached and returns the empty list: it raises nothing, and fetches no child.
\<close>

theorem depth_limit:
  assumes "source \<notin> visited" and "read_sitemap w source = (Inr doc, evs)"
    and "is_sitemap_index w doc = Inr True" and "MAX_SITEMAP_DEPTH \<le> depth"
  shows "extract_all_urls w source depth visited
     = (Inr [], insert source visited,
        Fetch source # evs @ [Parse source, Echo_err (Max_depth_reached source)])"
  using assms by (simp add: extract_all_urls.simps [of w source depth visited])

theorem depth_limit_witness:
  "''index.xml'' \<notin> ({} :: string set)
   \<and> read_sitemap demo ''index.xml'' = (Inr (index_xml [''urls.xml'', ''more.xml'']), [])
   \<and> is_sitemap_index demo (index_xml [''urls.xml'', ''more.xml'']) = Inr True
   \<and> MAX_SITEMAP_DEPTH \<le> 20
   \<and> extract_all_urls demo ''index.xml'' 20 {}
       = (Inr [], {''index.xml''},
          [Fetch ''index.xml'', Parse ''index.xml'', Echo_err (Max_depth_reached ''index.xml'')])"
proof -
  have h1: "''index.xml'' \<notin> ({} :: string set)" by simp
  have h2: "read_sitemap demo ''index.xml'' = (Inr (index_xml [''urls.xml'', ''more.xml'']), [])"
    by code_simp
  have h3: "is_sitemap_index demo (index_xml [''urls.xml'', ''more.xml'']) = Inr True"
    by code_simp
  have h4: "MAX_SITEMAP_DEPTH \<le> 20" by (simp add: MAX_SITEMAP_DEPTH_def)
  from depth_limit [OF h1 h2 h3 h4]
  have "extract_all_urls demo ''index.xml'' 20 {}
       = (Inr [], {''index.xml''},
          [Fetch ''index.xml'', Parse ''index.xml'', Echo_err (Max_depth_reached ''index.xml'')])"
    by simp
  with h1 h2 h3 h4 show ?thesis by blast
qed

text \<open>
  C9. A call of \<^verbatim>\<open>extract_all_urls\<close> whose source is already in the visited set returns
  the empty list, raises nothing, prints nothing and leaves the set as it is. So an index
  that lists itself is resolved (the function is total) to what its other children give:
  the result is that of the loop over the children with the index itself removed.
\<close>

theorem visited_source_is_skipped:
  "(source \<in> visited \<longrightarrow> extract_all_urls w source depth visited = (Inr [], visited, []))
   \<and> (source \<notin> visited \<and> read_sitemap w source = (Inr doc, evs)
        \<and> is_sitemap_index w doc = Inr True \<and> depth < MAX_SITEMAP_DEPTH
        \<and> extract_sitemaps_from_index w doc = (Inr children, evs2)
      \<longrightarrow> fst (extract_all_urls w source depth visited)
            = Inr (fst (for_children w (filter (\<lambda>c. c \<noteq> source) children) depth []
                          (insert source visited))))"
proof (intro conjI impI)
  assume "source \<in> visited"
  then show "extract_all_urls w source depth visited = (Inr [], visited, [])"
    by (rule extract_all_urls_visited)
next
  assume a: "source \<notin> visited \<and> read_sitemap w source = (Inr doc, evs)
    \<and> is_sitemap_index w doc = Inr True \<and> depth < MAX_SITEMAP_DEPTH
    \<and> extract_sitemaps_from_index w doc = (Inr children, evs2)"
  have "fst (for_children w children depth [] (insert source visited))
          = fst (for_children w (filter (\<lambda>c. c \<noteq> source) children) depth []
                   (insert source visited))"
    using for_children_skip_visited [of source "insert source visited" w children depth "[]"]
    by simp
  with a show "fst (extract_all_urls w source depth visited)
      = Inr (fst (for_children w (filter (\<lambda>c. c \<noteq> source) children) depth []
                    (insert source visited)))"
    by (simp add: extract_all_urls.simps [of w source depth visited] case_prod_unfold)
qed

theorem visited_source_is_skipped_witness:
  "extract_all_urls demo ''self.xml'' 1 {''self.xml''} = (Inr [], {''self.xml''}, [])
   \<and> read_sitemap demo ''self.xml'' = (Inr (index_xml [''self.xml'', ''urls.xml'']), [])
   \<and> is_sitemap_index demo (index_xml [''self.xml'', ''urls.xml'']) = Inr True
   \<and> extract_sitemaps_from_index demo (index_xml [''self.xml'', ''urls.xml''])
       = (Inr [''self.xml'', ''urls.xml''], [])
   \<and> fst (extract_all_urls demo ''self.xml'' 0 {}) = Inr [''https://a.test/x'', ''https://a.test/y'']"
proof -
  have h1: "read_sitemap demo ''self.xml'' = (Inr (index_xml [''self.xml'', ''urls.xml'']), [])"
    by code_simp
  have h2: "is_sitemap_index demo (index_xml [''self.xml'', ''urls.xml'']) = Inr True"
    by code_simp
  have h3: "extract_sitemaps_from_index demo (index_xml [''self.xml'', ''urls.xml''])
       = (Inr [''self.xml'', ''urls.xml''], [])"
    by code_simp
  have v: "fst (for_children demo (filter (\<lambda>c. c \<noteq> ''self.xml'') [''self.xml'', ''urls.xml'']) 0 []
                  (insert ''self.xml'' {}))
             = [''https://a.test/x'', ''https://a.test/y'']"
    by code_simp
  have a: "extract_all_urls demo ''self.xml'' 1 {''self.xml''} = (Inr [], {''self.xml''}, [])"
    using visited_source_is_skipped [of "''self.xml''" "{''self.xml''}" demo 1] by simp
  have "fst (extract_all_urls demo ''self.xml'' 0 {})
          = Inr (fst (for_children demo
                        (filter (\<lambda>c. c \<noteq> ''self.xml'') [''self.xml'', ''urls.xml'']) 0 []
                        (insert ''self.xml'' {})))"
    using visited_source_is_skipped [of "''self.xml''" "{}" demo 0
        "index_xml [''self.xml'', ''urls.xml'']" "[]" "[''self.xml'', ''urls.xml'']" "[]"]
      h1 h2 h3
    by (simp add: MAX_SITEMAP_DEPTH_def)
  then have b: "fst (extract_all_urls demo ''self.xml'' 0 {})
                  = Inr [''https://a.test/x'', ''https://a.test/y'']"
    by (simp only: v)
  from a b h1 h2 h3 show ?thesis by blast
qed

text \<open>
  C10. For every input string, whatever the parser answers on it,
  \<^verbatim>\<open>extract_sitemaps_from_index\<close> and \<^verbatim>\<open>extract_urls_from_sitemap\<close> do the same: the same
  list on a document that parses, the same exception and the same printed line on one
  that does not.
\<close>

theorem extractors_agree:
  "extract_sitemaps_from_index w x = extract_urls_from_sitemap w x"
  unfolding extract_sitemaps_from_index_def extract_urls_from_sitemap_def by (rule refl)

end
